theory Spec2Isabelle
  imports Main "HOL-Library.Sublist"
begin

section \<open>The chat client of \<^verbatim>\<open>src/components/Home.tsx\<close>\<close>

text \<open>
  The repository is one React component, \<^verbatim>\<open>Home\<close>, that talks to a chat server over a
  socket.io connection and one HTTP endpoint. The component is modelled as a state
  machine: a record holds the six \<^verbatim>\<open>useState\<close> cells together with what the component
  has done to the outside (events emitted on the socket, HTTP requests issued, lines
  logged, listeners registered), and every handler of the source is a function on that
  record. What arrives from outside (socket events, user input, the settlement of a
  \<^verbatim>\<open>fetch\<close>) is an event, and \<open>step\<close> dispatches it to the handler the source
  registered for it.
\<close>

subsection \<open>Interfaces\<close>

text \<open>
  \<^verbatim>\<open>Room\<close>, \<^verbatim>\<open>IUser\<close> and \<^verbatim>\<open>IMessage\<close> are imported from \<^verbatim>\<open>../interfaces\<close>. Their
  fields are the ones \<^verbatim>\<open>Home.tsx\<close> reads and writes: \<^verbatim>\<open>user.id\<close>,
  \<^verbatim>\<open>user.username\<close>, \<^verbatim>\<open>user.room\<close>, and the object literal of
  \<^verbatim>\<open>handleMessageSubmit\<close>. A TypeScript union of string literals is a string at run
  time, so \<open>Room\<close> is a string; that only \<^verbatim>\<open>'blue'\<close> and \<^verbatim>\<open>'red'\<close> occur is a
  property of the component, proved below.
\<close>

type_synonym Room = string

record IUser =
  id' :: string
  username :: string
  room :: Room

record IMessage =
  text' :: string
  sender :: string
  socketId :: string
  timestamp :: int

text \<open>The second argument of \<^verbatim>\<open>socket.emit\<close>: the two object literals of the source.\<close>

datatype Payload =
  Identity string Room
| Outgoing IMessage Room

subsection \<open>The component and its surroundings\<close>

text \<open>
  \<open>onlineUsers\<close> is \<open>None\<close> when the cell holds JavaScript's \<^verbatim>\<open>undefined\<close>, which
  \<^verbatim>\<open>setOnlineUsers(data.onlineUsers)\<close> stores when the parsed body has no such field.
  \<open>newConnection_listeners\<close> counts the listeners registered on the socket for
  \<^verbatim>\<open>'newConnection'\<close>: \<^verbatim>\<open>socket.on\<close> adds a listener at every call, and the call sits
  inside the \<^verbatim>\<open>'loggedin'\<close> listener. The listeners for \<^verbatim>\<open>'connect'\<close>, \<^verbatim>\<open>'loggedin'\<close>
  and \<^verbatim>\<open>'message'\<close> are registered by the effect with the empty dependency list, once.
\<close>

record Home =
  username :: string
  message :: string
  loggedIn :: bool
  onlineUsers :: "IUser list option"
  chatHistory :: "IMessage list"
  room :: Room
  newConnection_listeners :: nat
  emitted :: "(string \<times> Payload) list"
  requests :: "string list"
  in_flight :: nat
  console :: "string list"

definition ADDRESS :: string where
  "ADDRESS = ''http://localhost:3030''"

text \<open>
  A state setter of React takes a value or a function of the current value; the function
  form is applied to the value the cell holds when the update is processed.
\<close>

datatype 'a SetStateAction = Value 'a | Updater "'a \<Rightarrow> 'a"

fun resolve :: "'a SetStateAction \<Rightarrow> 'a \<Rightarrow> 'a" where
  "resolve (Value v) current = v"
| "resolve (Updater f) current = f current"

definition setUsername :: "string \<Rightarrow> Home \<Rightarrow> Home" where
  "setUsername v c = c\<lparr>username := v\<rparr>"

definition setMessage :: "string \<Rightarrow> Home \<Rightarrow> Home" where
  "setMessage v c = c\<lparr>message := v\<rparr>"

definition setLoggedIn :: "bool \<Rightarrow> Home \<Rightarrow> Home" where
  "setLoggedIn v c = c\<lparr>loggedIn := v\<rparr>"

definition setOnlineUsers :: "IUser list option \<Rightarrow> Home \<Rightarrow> Home" where
  "setOnlineUsers v c = c\<lparr>onlineUsers := v\<rparr>"

definition setChatHistory :: "IMessage list SetStateAction \<Rightarrow> Home \<Rightarrow> Home" where
  "setChatHistory a c = c\<lparr>chatHistory := resolve a (chatHistory c)\<rparr>"

definition setRoom :: "Room \<Rightarrow> Home \<Rightarrow> Home" where
  "setRoom v c = c\<lparr>room := v\<rparr>"

definition console_log :: "string \<Rightarrow> Home \<Rightarrow> Home" where
  "console_log line c = c\<lparr>console := console c @ [line]\<rparr>"

definition socket_emit :: "string \<Rightarrow> Payload \<Rightarrow> Home \<Rightarrow> Home" where
  "socket_emit name payload c = c\<lparr>emitted := emitted c @ [(name, payload)]\<rparr>"

definition socket_on_newConnection :: "Home \<Rightarrow> Home" where
  "socket_on_newConnection c = c\<lparr>newConnection_listeners := Suc (newConnection_listeners c)\<rparr>"

subsection \<open>The view\<close>

definition username_disabled :: "Home \<Rightarrow> bool" where
  "username_disabled c = loggedIn c"

definition message_disabled :: "Home \<Rightarrow> bool" where
  "message_disabled c = (\<not> loggedIn c)"

definition room_variant :: "Home \<Rightarrow> string" where
  "room_variant c = (if room c = ''blue'' then ''primary'' else ''danger'')"

text \<open>
  The items of the list under "Connected users:". \<^verbatim>\<open>onlineUsers.length\<close> throws a
  \<^verbatim>\<open>TypeError\<close> when the cell holds \<^verbatim>\<open>undefined\<close>; it is the one expression of the
  render that can throw.
\<close>

datatype Item = NoUsersYet | UserItem string string

datatype error = TypeError

definition connected_users :: "Home \<Rightarrow> error + Item list" where
  "connected_users c =
     (case onlineUsers c of
        None \<Rightarrow> Inl TypeError
      | Some users \<Rightarrow>
          Inr ((if length users = 0 then [NoUsersYet] else [])
               @ map (\<lambda>user. UserItem (id' user) (IUser.username user))
                   (filter (\<lambda>user. IUser.room user = room c) users)))"

subsection \<open>The presence query\<close>

text \<open>
  \<^verbatim>\<open>fetchOnlineUsers\<close> is asynchronous. Up to its first \<^verbatim>\<open>await\<close> it issues the request;
  the rest runs when the request settles. \<^verbatim>\<open>fetch\<close> rejects on a network failure and
  resolves with a \<^verbatim>\<open>Response\<close> for every HTTP status; \<^verbatim>\<open>response.json()\<close> rejects when the
  body is not JSON; reading \<^verbatim>\<open>.onlineUsers\<close> throws on \<^verbatim>\<open>null\<close> and gives
  \<^verbatim>\<open>undefined\<close> on a value without that field. Both awaits are taken as one settlement,
  since no cell is written between them.

  \<^verbatim>\<open>setOnlineUsers\<close> is called from the continuation of an \<^verbatim>\<open>await\<close>, outside any React
  event handler, so the component is rendered again inside the call. When that render
  throws, the error leaves \<^verbatim>\<open>setOnlineUsers\<close> inside the \<^verbatim>\<open>try\<close> block, and the
  \<^verbatim>\<open>catch\<close> logs it; React unmounts the component.
\<close>

datatype Body =
  NotJson
| JsonNull
| JsonData "IUser list option"

datatype Settlement =
  Rejected string
| Resolved nat Body

definition fetchOnlineUsers :: "Home \<Rightarrow> Home" where
  "fetchOnlineUsers c =
     c\<lparr>requests := requests c @ [ADDRESS @ ''/online-users''], in_flight := Suc (in_flight c)\<rparr>"

text \<open>\<^verbatim>\<open>if (response)\<close>: a \<^verbatim>\<open>Response\<close> is an object, and every object is truthy.\<close>

fun truthy :: "nat \<times> Body \<Rightarrow> bool" where
  "truthy response = True"

fun fetchOnlineUsers_settled :: "Settlement \<Rightarrow> Home \<Rightarrow> Home" where
  "fetchOnlineUsers_settled (Rejected error) c = console_log error c"
| "fetchOnlineUsers_settled (Resolved status body) c =
     (if truthy (status, body) then
        (case body of
           NotJson \<Rightarrow> console_log ''SyntaxError'' c
         | JsonNull \<Rightarrow> console_log ''TypeError'' c
         | JsonData data_onlineUsers \<Rightarrow>
             (let rendered = setOnlineUsers data_onlineUsers c
              in case connected_users rendered of
                   Inl render_error \<Rightarrow> console_log ''TypeError'' rendered
                 | Inr items \<Rightarrow> rendered))
      else console_log ''error fetching the online users'' c)"

subsection \<open>Socket listeners\<close>

definition on_connect :: "Home \<Rightarrow> Home" where
  "on_connect c = console_log ''Connection established!'' c"

definition on_newConnection :: "Home \<Rightarrow> Home" where
  "on_newConnection c = fetchOnlineUsers (console_log ''watch out! a new challenger appears!'' c)"

definition on_loggedin :: "Home \<Rightarrow> Home" where
  "on_loggedin c =
     socket_on_newConnection
       (fetchOnlineUsers (setLoggedIn True (console_log ''you're logged in!'' c)))"

definition on_message :: "IMessage \<Rightarrow> Home \<Rightarrow> Home" where
  "on_message newMessage c =
     setChatHistory (Updater (\<lambda>chatHistory. chatHistory @ [newMessage]))
       (console_log ''a new message appeared!'' c)"

subsection \<open>Form handlers\<close>

text \<open>
  The form handlers are closures of the latest render, so the cells they read
  (\<^verbatim>\<open>username\<close>, \<^verbatim>\<open>message\<close>, \<^verbatim>\<open>room\<close>, \<^verbatim>\<open>chatHistory\<close>) are taken from the record: the
  component is rendered again after every handler that writes a cell and before the next
  event is dispatched. \<^verbatim>\<open>socket.id\<close> and \<^verbatim>\<open>Date.now()\<close> are read from outside when the
  handler runs and are arguments here.
\<close>

definition handleUsernameSubmit :: "Home \<Rightarrow> Home" where
  "handleUsernameSubmit c = socket_emit ''setUsername'' (Identity (username c) (room c)) c"

definition handleMessageSubmit :: "string \<Rightarrow> int \<Rightarrow> Home \<Rightarrow> Home" where
  "handleMessageSubmit socket_id now c =
     (let newMessage =
            \<lparr>text' = message c, sender = username c, socketId = socket_id, timestamp = now\<rparr>
      in setMessage ''''
           (setChatHistory (Value (chatHistory c @ [newMessage]))
              (socket_emit ''sendmessage'' (Outgoing newMessage (room c)) c)))"

definition room_onClick :: "Home \<Rightarrow> Home" where
  "room_onClick c = setRoom (if room c = ''blue'' then ''red'' else ''blue'') c"

subsection \<open>Events and dispatch\<close>

text \<open>
  A socket event can arrive at any time. A change or submit event of a form comes from
  its text field, which takes no input while it carries \<^verbatim>\<open>disabled\<close>; the Room button
  (a \<^verbatim>\<open>Button\<close> of react-bootstrap, of type \<^verbatim>\<open>button\<close>) is never disabled and does not
  submit the form. A request can settle only while one is in flight. An event that cannot
  happen in a state has no successor, \<open>None\<close>.

  \<open>step\<close> follows the component while it is mounted. A settlement after which the render
  throws unmounts it: such a settlement has no successor either, and what it wrote and
  logged is what \<open>fetchOnlineUsers_settled\<close> returns. A record whose list cell holds
  \<^verbatim>\<open>undefined\<close> is therefore not a state that a run produces.
\<close>

datatype Event =
  Recv_connect
| Recv_loggedin
| Recv_newConnection
| Recv_message IMessage
| Username_onChange string
| Username_onSubmit
| Room_onClick
| Message_onChange string
| Message_onSubmit string int
| Fetch_settled Settlement

fun step :: "Event \<Rightarrow> Home \<Rightarrow> Home option" where
  "step Recv_connect c = Some (on_connect c)"
| "step Recv_loggedin c = Some (on_loggedin c)"
| "step Recv_newConnection c = Some ((on_newConnection ^^ newConnection_listeners c) c)"
| "step (Recv_message newMessage) c = Some (on_message newMessage c)"
| "step (Username_onChange v) c = (if username_disabled c then None else Some (setUsername v c))"
| "step Username_onSubmit c = (if username_disabled c then None else Some (handleUsernameSubmit c))"
| "step Room_onClick c = Some (room_onClick c)"
| "step (Message_onChange v) c = (if message_disabled c then None else Some (setMessage v c))"
| "step (Message_onSubmit socket_id now) c =
     (if message_disabled c then None else Some (handleMessageSubmit socket_id now c))"
| "step (Fetch_settled outcome) c =
     (if in_flight c = 0 then None
      else (let settled = fetchOnlineUsers_settled outcome (c\<lparr>in_flight := in_flight c - 1\<rparr>)
            in case connected_users settled of
                 Inl render_error \<Rightarrow> None
               | Inr items \<Rightarrow> Some settled))"

fun run :: "Event list \<Rightarrow> Home \<Rightarrow> Home option" where
  "run [] c = Some c"
| "run (e # es) c = (case step e c of None \<Rightarrow> None | Some c' \<Rightarrow> run es c')"

text \<open>The component after its first render and its mount effect.\<close>

definition mounted :: Home where
  "mounted =
     \<lparr>username = '''', message = '''', loggedIn = False, onlineUsers = Some [],
      chatHistory = [], room = ''blue'', newConnection_listeners = 0, emitted = [],
      requests = [], in_flight = 0, console = []\<rparr>"

text \<open>The messages a sequence of events delivers, in the order of receipt.\<close>

fun received :: "Event list \<Rightarrow> IMessage list" where
  "received [] = []"
| "received (Recv_message m # es) = m # received es"
| "received (e # es) = received es"

text \<open>
  What a sequence of events hands to \<^verbatim>\<open>setOnlineUsers\<close>, in the order of settlement:
  the \<^verbatim>\<open>onlineUsers\<close> field of every body that parsed.
\<close>

fun snapshots :: "Event list \<Rightarrow> IUser list option list" where
  "snapshots [] = []"
| "snapshots (Fetch_settled (Resolved status (JsonData v)) # es) = v # snapshots es"
| "snapshots (e # es) = snapshots es"

subsection \<open>Example values\<close>

definition alice :: IUser where
  "alice = \<lparr>id' = ''s1'', IUser.username = ''alice'', IUser.room = ''blue''\<rparr>"

definition bob :: IUser where
  "bob = \<lparr>id' = ''s2'', IUser.username = ''bob'', IUser.room = ''red''\<rparr>"

definition carol :: IUser where
  "carol = \<lparr>id' = ''s3'', IUser.username = ''carol'', IUser.room = ''blue''\<rparr>"

definition hello :: IMessage where
  "hello = \<lparr>text' = ''hello'', sender = ''carol'', socketId = ''s3'', timestamp = 1000\<rparr>"

definition again :: IMessage where
  "again = \<lparr>text' = ''again'', sender = ''carol'', socketId = ''s3'', timestamp = 3000\<rparr>"

text \<open>Alice types her name, submits it and is confirmed by the server.\<close>

definition login :: "Event list" where
  "login = [Username_onChange ''alice'', Username_onSubmit, Recv_loggedin]"

section \<open>Properties\<close>

lemmas setters =
  setUsername_def setMessage_def setLoggedIn_def setOnlineUsers_def setChatHistory_def
  setRoom_def console_log_def socket_emit_def socket_on_newConnection_def

lemmas handlers =
  on_connect_def on_loggedin_def on_message_def on_newConnection_def handleUsernameSubmit_def
  handleMessageSubmit_def room_onClick_def fetchOnlineUsers_def

lemmas view = username_disabled_def message_disabled_def

lemma run_append:
  "run (es @ fs) c = (case run es c of None \<Rightarrow> None | Some c' \<Rightarrow> run fs c')"
  by (induction es arbitrary: c) (auto split: option.splits)

lemma newConnection_listeners_run:
  "(on_newConnection ^^ n) c =
     c\<lparr>console := console c @ replicate n ''watch out! a new challenger appears!'',
       requests := requests c @ replicate n (ADDRESS @ ''/online-users''),
       in_flight := in_flight c + n\<rparr>"
proof (induction n)
  case 0
  show ?case by simp
next
  case (Suc n)
  have "(on_newConnection ^^ Suc n) c = on_newConnection ((on_newConnection ^^ n) c)"
    by simp
  also have "\<dots> = on_newConnection
      (c\<lparr>console := console c @ replicate n ''watch out! a new challenger appears!'',
         requests := requests c @ replicate n (ADDRESS @ ''/online-users''),
         in_flight := in_flight c + n\<rparr>)"
    by (simp only: Suc)
  also have "\<dots> =
      c\<lparr>console := console c @ replicate (Suc n) ''watch out! a new challenger appears!'',
        requests := requests c @ replicate (Suc n) (ADDRESS @ ''/online-users''),
        in_flight := in_flight c + Suc n\<rparr>"
    by (simp add: on_newConnection_def fetchOnlineUsers_def console_log_def
        replicate_append_same)
  finally show ?case .
qed

lemma settled_cases:
  "fetchOnlineUsers_settled outcome c =
     (case outcome of
        Rejected err \<Rightarrow> c\<lparr>console := console c @ [err]\<rparr>
      | Resolved status NotJson \<Rightarrow> c\<lparr>console := console c @ [''SyntaxError'']\<rparr>
      | Resolved status JsonNull \<Rightarrow> c\<lparr>console := console c @ [''TypeError'']\<rparr>
      | Resolved status (JsonData None) \<Rightarrow>
          c\<lparr>onlineUsers := None, console := console c @ [''TypeError'']\<rparr>
      | Resolved status (JsonData (Some users)) \<Rightarrow> c\<lparr>onlineUsers := Some users\<rparr>)"
  by (simp add: setters connected_users_def Let_def
      split: Settlement.splits Body.splits option.splits)

lemma render_throws:
  "(case connected_users c of Inl render_error \<Rightarrow> x | Inr items \<Rightarrow> y) =
     (if onlineUsers c = None then x else y)"
  by (simp add: connected_users_def split: option.splits)

lemmas unfold_all =
  setters handlers view newConnection_listeners_run settled_cases render_throws Let_def

lemmas examples = alice_def bob_def carol_def hello_def again_def login_def mounted_def

lemma run_snoc:
  "run (es @ [e]) c = Some c' \<longleftrightarrow> (\<exists>d. run es c = Some d \<and> step e d = Some c')"
  by (auto simp: run_append split: option.splits)

subsection \<open>What one event does to each cell\<close>

lemma step_chatHistory:
  "step e c = Some c' \<Longrightarrow> \<exists>ys. chatHistory c' = chatHistory c @ ys \<and> subseq (received [e]) ys"
  by (cases e) (auto simp: unfold_all split: if_splits Settlement.splits Body.splits option.splits)

lemma step_login:
  "step e c = Some c' \<Longrightarrow>
     newConnection_listeners c' = newConnection_listeners c + (if e = Recv_loggedin then 1 else 0)
     \<and> loggedIn c' = (loggedIn c \<or> e = Recv_loggedin)"
  by (cases e) (auto simp: unfold_all split: if_splits Settlement.splits Body.splits option.splits)

lemma step_room:
  "step e c = Some c' \<Longrightarrow>
     room c' = (if e = Room_onClick then (if room c = ''blue'' then ''red'' else ''blue'')
                else room c)"
  by (cases e) (auto simp: unfold_all split: if_splits Settlement.splits Body.splits option.splits)

lemma step_onlineUsers:
  "step e c = Some c' \<Longrightarrow> onlineUsers c' = last (onlineUsers c # snapshots [e])"
  by (cases e) (auto simp: unfold_all split: if_splits Settlement.splits Body.splits option.splits)

lemma step_sendmessage:
  "step e c = Some c' \<Longrightarrow> ''sendmessage'' \<in> fst ` set (emitted c') \<Longrightarrow>
     ''sendmessage'' \<in> fst ` set (emitted c) \<or> loggedIn c'"
  by (cases e) (auto simp: unfold_all split: if_splits Settlement.splits Body.splits option.splits)

subsection \<open>What a sequence of events does\<close>

lemma received_Cons: "received (e # es) = received [e] @ received es"
  by (cases e) simp_all

lemma snapshots_append: "snapshots (es @ fs) = snapshots es @ snapshots fs"
  by (induction es rule: snapshots.induct) simp_all

lemma run_chatHistory:
  "run es c = Some c' \<Longrightarrow> \<exists>ys. chatHistory c' = chatHistory c @ ys \<and> subseq (received es) ys"
proof (induction es arbitrary: c)
  case Nil
  then show ?case by simp
next
  case (Cons e es)
  from Cons.prems obtain d where d: "step e c = Some d" and r: "run es d = Some c'"
    by (auto split: option.splits)
  from step_chatHistory [OF d] obtain ys where
    ys: "chatHistory d = chatHistory c @ ys" "subseq (received [e]) ys" by blast
  from Cons.IH [OF r] obtain zs where
    zs: "chatHistory c' = chatHistory d @ zs" "subseq (received es) zs" by blast
  have "subseq (received (e # es)) (ys @ zs)"
    using ys(2) zs(2) received_Cons [of e es] by (simp add: list_emb_append_mono)
  with ys(1) zs(1) show ?case by simp
qed

lemma run_messages:
  "\<exists>c'. run (map Recv_message ms) c = Some c' \<and> chatHistory c' = chatHistory c @ ms"
proof (induction ms arbitrary: c)
  case Nil
  show ?case by simp
next
  case (Cons m ms)
  from Cons [of "on_message m c"] show ?case
    by (auto simp: on_message_def setters)
qed

lemma run_login:
  "run es c = Some c' \<Longrightarrow>
     newConnection_listeners c' =
       newConnection_listeners c + length (filter (\<lambda>e. e = Recv_loggedin) es)
     \<and> loggedIn c' = (loggedIn c \<or> Recv_loggedin \<in> set es)"
proof (induction es arbitrary: c' rule: rev_induct)
  case Nil
  then show ?case by simp
next
  case (snoc e es)
  from snoc.prems obtain d where d: "run es c = Some d" and s: "step e d = Some c'"
    by (auto simp: run_snoc)
  from snoc.IH [OF d] step_login [OF s] show ?case by auto
qed

lemma run_room:
  "run es mounted = Some c \<Longrightarrow>
     room c = (if even (length (filter (\<lambda>e. e = Room_onClick) es)) then ''blue'' else ''red'')"
proof (induction es arbitrary: c rule: rev_induct)
  case Nil
  then show ?case by (auto simp: mounted_def)
next
  case (snoc e es)
  from snoc.prems obtain d where d: "run es mounted = Some d" and s: "step e d = Some c"
    by (auto simp: run_snoc)
  from snoc.IH [OF d] step_room [OF s] show ?case by auto
qed

lemma run_onlineUsers:
  "run es c = Some c' \<Longrightarrow> onlineUsers c' = last (onlineUsers c # snapshots es)"
proof (induction es arbitrary: c' rule: rev_induct)
  case Nil
  then show ?case by simp
next
  case (snoc e es)
  from snoc.prems obtain d where d: "run es c = Some d" and s: "step e d = Some c'"
    by (auto simp: run_snoc)
  from snoc.IH [OF d] step_onlineUsers [OF s] show ?case
    by (auto simp: snapshots_append)
qed

lemma run_sendmessage:
  "run es mounted = Some c \<Longrightarrow> ''sendmessage'' \<in> fst ` set (emitted c) \<Longrightarrow> loggedIn c"
proof (induction es arbitrary: c rule: rev_induct)
  case Nil
  then show ?case by (auto simp: mounted_def)
next
  case (snoc e es)
  from snoc.prems obtain d where d: "run es mounted = Some d" and s: "step e d = Some c"
    by (auto simp: run_snoc)
  from step_sendmessage [OF s snoc.prems(2)] snoc.IH [OF d] step_login [OF s]
  show ?case by auto
qed

section \<open>Chat history\<close>

text \<open>
  Claim C1. Every \<^verbatim>\<open>'message'\<close> event appends the received message at the end of the chat
  history. The listener passes \<^verbatim>\<open>setChatHistory\<close> a function of the history, so the new
  history is computed from the history of the state the event arrives in, whatever that
  state is, and not from the empty history of the render that installed the listener.
  Hence a sequence of received messages \<open>ms\<close> extends any history by exactly \<open>ms\<close>; and
  when other events come in between (local submits, presence signals, settled queries),
  the history only grows at its end and the received messages are in the added part, in
  the order of their receipt.
\<close>

theorem message_appended_in_receipt_order:
  "(\<exists>c'. run (map Recv_message ms) c = Some c' \<and> chatHistory c' = chatHistory c @ ms)
   \<and> (\<forall>es c'. run es c = Some c' \<longrightarrow>
         (\<exists>ys. chatHistory c' = chatHistory c @ ys \<and> subseq (received es) ys))"
  using run_messages [of ms c] run_chatHistory [of _ c] by blast

theorem message_appended_in_receipt_order_witness:
  "(\<exists>c'. run (map Recv_message [hello, again]) mounted = Some c'
        \<and> chatHistory c' = [hello, again])
   \<and> (\<exists>c'. run (Recv_message hello # login @
              [Message_onChange ''hi'', Message_onSubmit ''s1'' 2000, Recv_message again])
              mounted = Some c'
        \<and> chatHistory c' =
            [hello,
             \<lparr>text' = ''hi'', sender = ''alice'', socketId = ''s1'', timestamp = 2000\<rparr>,
             again]
        \<and> (\<exists>ys. chatHistory c' = chatHistory mounted @ ys \<and> subseq [hello, again] ys))"
proof -
  let ?es = "Recv_message hello # login @
    [Message_onChange ''hi'', Message_onSubmit ''s1'' 2000, Recv_message again]"
  obtain c' where r: "run ?es mounted = Some c'"
    and h: "chatHistory c' =
      [hello, \<lparr>text' = ''hi'', sender = ''alice'', socketId = ''s1'', timestamp = 2000\<rparr>, again]"
    by (simp add: unfold_all examples)
  have "received ?es = [hello, again]"
    by (simp add: login_def)
  with message_appended_in_receipt_order [of "[hello, again]" mounted] r h
  show ?thesis
    by (auto simp: mounted_def)
qed

section \<open>Local submits\<close>

text \<open>
  Claim C2. A submit of the message form, which the view allows once the client is logged
  in, builds the message from the draft, the username cell, the id of the socket and the
  clock, emits one \<^verbatim>\<open>'sendmessage'\<close> event that carries this message and the current
  room, and appends this same message once at the end of the local history. The draft is
  cleared. Nothing else changes: no request is issued and none is awaited.
\<close>

theorem message_submit_echoes_and_sends:
  "loggedIn c \<Longrightarrow>
   step (Message_onSubmit socket_id now) c =
     Some (c\<lparr>message := '''',
             chatHistory := chatHistory c @
               [\<lparr>text' = message c, sender = username c, socketId = socket_id, timestamp = now\<rparr>],
             emitted := emitted c @
               [(''sendmessage'',
                 Outgoing \<lparr>text' = message c, sender = username c, socketId = socket_id,
                            timestamp = now\<rparr> (room c))]\<rparr>)"
  by (simp add: unfold_all)

theorem message_submit_echoes_and_sends_witness:
  "\<exists>c c'. run (login @ [Message_onChange ''hi'']) mounted = Some c \<and> loggedIn c
     \<and> step (Message_onSubmit ''s1'' 2000) c = Some c'
     \<and> chatHistory c' =
         [\<lparr>text' = ''hi'', sender = ''alice'', socketId = ''s1'', timestamp = 2000\<rparr>]
     \<and> emitted c' =
         [(''setUsername'', Identity ''alice'' ''blue''),
          (''sendmessage'',
           Outgoing \<lparr>text' = ''hi'', sender = ''alice'', socketId = ''s1'', timestamp = 2000\<rparr>
             ''blue'')]"
proof -
  obtain c where r: "run (login @ [Message_onChange ''hi'']) mounted = Some c"
    and l: "loggedIn c" and m: "message c = ''hi''" and u: "username c = ''alice''"
    and h: "chatHistory c = []" and b: "room c = ''blue''"
    and e: "emitted c = [(''setUsername'', Identity ''alice'' ''blue'')]"
    by (simp add: unfold_all examples)
  from message_submit_echoes_and_sends [OF l, of "''s1''" 2000] r l m u h b e
  show ?thesis by simp
qed

text \<open>
  Claim C3, as the code has it. A submit of the identity form emits exactly one event,
  \<^verbatim>\<open>'setUsername'\<close> on the wire, whose payload is the current username and the current
  room, and changes no cell. The submit does not suppress further identity input: the
  username field stays enabled and takes input after the submit. The field is disabled
  by the logged-in flag, that is from the receipt of \<^verbatim>\<open>'loggedin'\<close> on, after which it
  takes neither a change nor a submit.
\<close>

theorem identity_submit_emits_and_changes_no_cell:
  "step Username_onSubmit c = Some c' \<Longrightarrow>
     c' = c\<lparr>emitted := emitted c @ [(''setUsername'', Identity (username c) (room c))]\<rparr>
     \<and> \<not> username_disabled c'
     \<and> step (Username_onChange v) c' = Some (c'\<lparr>username := v\<rparr>)
     \<and> (\<exists>d. step Recv_loggedin c' = Some d \<and> username_disabled d
            \<and> step (Username_onChange v) d = None \<and> step Username_onSubmit d = None)"
  by (auto simp: unfold_all split: if_splits)

theorem identity_submit_emits_and_changes_no_cell_witness:
  "step Username_onSubmit (mounted\<lparr>username := ''alice''\<rparr>) =
     Some (mounted\<lparr>username := ''alice'',
                   emitted := [(''setUsername'', Identity ''alice'' ''blue'')]\<rparr>)
   \<and> \<not> username_disabled
         (mounted\<lparr>username := ''alice'',
                   emitted := [(''setUsername'', Identity ''alice'' ''blue'')]\<rparr>)"
proof -
  have s: "step Username_onSubmit (mounted\<lparr>username := ''alice''\<rparr>) =
     Some (mounted\<lparr>username := ''alice'',
                   emitted := [(''setUsername'', Identity ''alice'' ''blue'')]\<rparr>)"
    by (simp add: unfold_all examples)
  from identity_submit_emits_and_changes_no_cell [OF s, of "''bob''"] s show ?thesis by blast
qed

text \<open>
  Claim C3 as it is written fails: after the identity was submitted and before any
  \<^verbatim>\<open>'loggedin'\<close>, the username field is not disabled, a second name is typed and submitted,
  and a second identity event goes out. The event is named \<^verbatim>\<open>'setUsername'\<close>.
\<close>

theorem identity_input_not_suppressed_by_submit:
  "run [Username_onChange ''alice'', Username_onSubmit] mounted =
     Some (mounted\<lparr>username := ''alice'',
                   emitted := [(''setUsername'', Identity ''alice'' ''blue'')]\<rparr>)
   \<and> username_disabled
       (mounted\<lparr>username := ''alice'',
                 emitted := [(''setUsername'', Identity ''alice'' ''blue'')]\<rparr>) = False
   \<and> run [Username_onChange ''alice'', Username_onSubmit,
          Username_onChange ''bob'', Username_onSubmit] mounted =
     Some (mounted\<lparr>username := ''bob'',
                   emitted := [(''setUsername'', Identity ''alice'' ''blue''),
                               (''setUsername'', Identity ''bob'' ''blue'')]\<rparr>)"
  by (simp add: unfold_all examples)

section \<open>Login and presence signals\<close>

text \<open>
  Claim C4. On \<^verbatim>\<open>'loggedin'\<close> the logged-in flag becomes true and exactly one presence
  query is issued, a GET of \<^verbatim>\<open>/online-users\<close>; the list of online users is left for the
  settlement of that query to fill, and nothing is emitted on the socket.
\<close>

theorem loggedin_sets_flag_and_queries_once:
  "\<exists>c'. step Recv_loggedin c = Some c' \<and> loggedIn c'
     \<and> requests c' = requests c @ [''http://localhost:3030/online-users'']
     \<and> in_flight c' = in_flight c + 1
     \<and> onlineUsers c' = onlineUsers c \<and> emitted c' = emitted c"
  by (simp add: unfold_all ADDRESS_def)

theorem loggedin_sets_flag_and_queries_once_witness:
  "\<not> loggedIn mounted
   \<and> (\<exists>c'. step Recv_loggedin mounted = Some c' \<and> loggedIn c'
         \<and> requests c' = [''http://localhost:3030/online-users''] \<and> in_flight c' = 1)"
  using loggedin_sets_flag_and_queries_once [of mounted] by (simp add: mounted_def)

text \<open>
  Claim C5. The listener for \<^verbatim>\<open>'newConnection'\<close> is registered by the \<^verbatim>\<open>'loggedin'\<close>
  listener. So in every state the component reaches from its mount: while the flag is
  false a \<^verbatim>\<open>'newConnection'\<close> signal changes nothing at all; while it is true the signal
  issues the presence query again, whatever the list holds, once for each \<^verbatim>\<open>'loggedin'\<close>
  received so far (once, when the server confirms the identity once), and writes no cell.
  The signal carries nothing the listener reads.
\<close>

theorem newConnection_refetches_only_when_logged_in:
  "run es mounted = Some c \<Longrightarrow>
     newConnection_listeners c = length (filter (\<lambda>e. e = Recv_loggedin) es)
     \<and> (\<not> loggedIn c \<longrightarrow> step Recv_newConnection c = Some c)
     \<and> (loggedIn c \<longrightarrow> 0 < newConnection_listeners c
          \<and> step Recv_newConnection c =
              Some (c\<lparr>console := console c @
                       replicate (newConnection_listeners c) ''watch out! a new challenger appears!'',
                      requests := requests c @
                       replicate (newConnection_listeners c) ''http://localhost:3030/online-users'',
                      in_flight := in_flight c + newConnection_listeners c\<rparr>))"
proof -
  assume r: "run es mounted = Some c"
  from run_login [OF r]
  have n: "newConnection_listeners c = length (filter (\<lambda>e. e = Recv_loggedin) es)"
    and l: "loggedIn c = (Recv_loggedin \<in> set es)"
    by (simp_all add: mounted_def)
  have "\<not> loggedIn c \<Longrightarrow> newConnection_listeners c = 0"
    using n l by (auto simp: filter_empty_conv)
  moreover have "loggedIn c \<Longrightarrow> 0 < newConnection_listeners c"
    using n l by (auto simp: filter_empty_conv)
  ultimately show ?thesis using n
    by (auto simp: newConnection_listeners_run ADDRESS_def)
qed

theorem newConnection_refetches_only_when_logged_in_witness:
  "(\<exists>c. run [Username_onChange ''alice'', Username_onSubmit] mounted = Some c
        \<and> \<not> loggedIn c \<and> step Recv_newConnection c = Some c)
   \<and> (\<exists>c c'. run login mounted = Some c \<and> loggedIn c
        \<and> step Recv_newConnection c = Some c'
        \<and> requests c' = requests c @ [''http://localhost:3030/online-users'']
        \<and> in_flight c' = 2 \<and> onlineUsers c' = onlineUsers c)"
proof -
  obtain c where c: "run [Username_onChange ''alice'', Username_onSubmit] mounted = Some c"
    and nc: "\<not> loggedIn c"
    by (simp add: unfold_all examples)
  obtain d where d: "run login mounted = Some d" and ld: "loggedIn d"
    and fd: "in_flight d = 1" and nd: "newConnection_listeners d = 1"
    by (simp add: unfold_all examples)
  from newConnection_refetches_only_when_logged_in [OF c] nc
  have 1: "step Recv_newConnection c = Some c" by simp
  from newConnection_refetches_only_when_logged_in [OF d] ld
  have "step Recv_newConnection d =
      Some (d\<lparr>console := console d @
               replicate (newConnection_listeners d) ''watch out! a new challenger appears!'',
              requests := requests d @
               replicate (newConnection_listeners d) ''http://localhost:3030/online-users'',
              in_flight := in_flight d + newConnection_listeners d\<rparr>)"
    by blast
  then have 2: "\<exists>c'. step Recv_newConnection d = Some c'
        \<and> requests c' = requests d @ [''http://localhost:3030/online-users'']
        \<and> in_flight c' = 2 \<and> onlineUsers c' = onlineUsers d"
    by (simp add: fd nd)
  from c nc 1 d ld 2 show ?thesis by blast
qed

section \<open>The list of online users\<close>

text \<open>
  Claim C6. The list of online users is written by settled presence queries only, and
  each one that delivers a snapshot overwrites the whole list. After any sequence of
  events the list is therefore the snapshot of the query that settled last (or the list
  at the start, when none delivered one): queries in flight together may settle in any
  order, the one that settles last decides, and no snapshot is merged with another.
\<close>

theorem last_settled_snapshot_replaces_list:
  "run es c = Some c' \<Longrightarrow> onlineUsers c' = last (onlineUsers c # snapshots es)"
  by (rule run_onlineUsers)

theorem last_settled_snapshot_replaces_list_witness:
  "(\<exists>c. run (login @ [Recv_newConnection]) mounted = Some c \<and> in_flight c = 2)
   \<and> (\<exists>c'. run (login @ [Recv_newConnection,
               Fetch_settled (Resolved 200 (JsonData (Some [alice, bob]))),
               Fetch_settled (Resolved 200 (JsonData (Some [alice])))]) mounted = Some c'
         \<and> onlineUsers c' = Some [alice])
   \<and> (\<exists>c'. run (login @ [Recv_newConnection,
               Fetch_settled (Resolved 200 (JsonData (Some [alice]))),
               Fetch_settled (Resolved 200 (JsonData (Some [alice, bob])))]) mounted = Some c'
         \<and> onlineUsers c' = Some [alice, bob])"
proof -
  let ?first = "login @ [Recv_newConnection,
    Fetch_settled (Resolved 200 (JsonData (Some [alice, bob]))),
    Fetch_settled (Resolved 200 (JsonData (Some [alice])))]"
  let ?second = "login @ [Recv_newConnection,
    Fetch_settled (Resolved 200 (JsonData (Some [alice]))),
    Fetch_settled (Resolved 200 (JsonData (Some [alice, bob])))]"
  have 0: "\<exists>c. run (login @ [Recv_newConnection]) mounted = Some c \<and> in_flight c = 2"
    by (simp add: unfold_all login_def mounted_def)
  obtain c1 where r1: "run ?first mounted = Some c1"
    by (simp add: unfold_all login_def mounted_def)
  obtain c2 where r2: "run ?second mounted = Some c2"
    by (simp add: unfold_all login_def mounted_def)
  have "onlineUsers c1 = Some [alice]"
    using last_settled_snapshot_replaces_list [OF r1] by (simp add: login_def)
  moreover have "onlineUsers c2 = Some [alice, bob]"
    using last_settled_snapshot_replaces_list [OF r2] by (simp add: login_def)
  ultimately show ?thesis using 0 r1 r2 by blast
qed

text \<open>
  Claim C8. Whenever the list cell holds a fetched snapshot, the items shown under
  "Connected users:" are, apart from the placeholder shown for an empty snapshot, the
  participants of the snapshot whose room is the room currently selected, in the order
  of the snapshot, each shown by its username under its id as key. A participant of
  another room is not shown, and every participant of the selected room is.
\<close>

theorem connected_users_is_room_projection:
  "onlineUsers c = Some users \<Longrightarrow>
     \<exists>items. connected_users c = Inr items
       \<and> filter (\<lambda>i. i \<noteq> NoUsersYet) items =
           map (\<lambda>u. UserItem (id' u) (IUser.username u)) (filter (\<lambda>u. IUser.room u = room c) users)
       \<and> (NoUsersYet \<in> set items \<longleftrightarrow> users = [])
       \<and> (\<forall>k n. UserItem k n \<in> set items \<longleftrightarrow>
             (\<exists>u \<in> set users. IUser.room u = room c \<and> id' u = k \<and> IUser.username u = n))"
  by (auto simp: connected_users_def filter_map comp_def)

theorem connected_users_is_room_projection_witness:
  "\<exists>c. run (login @ [Fetch_settled (Resolved 200 (JsonData (Some [alice, bob, carol])))])
          mounted = Some c
     \<and> onlineUsers c = Some [alice, bob, carol] \<and> room c = ''blue''
     \<and> connected_users c = Inr [UserItem ''s1'' ''alice'', UserItem ''s3'' ''carol'']
     \<and> connected_users (room_onClick c) = Inr [UserItem ''s2'' ''bob'']"
proof -
  obtain c where r: "run (login @ [Fetch_settled (Resolved 200 (JsonData (Some [alice, bob, carol])))])
      mounted = Some c"
    and u: "onlineUsers c = Some [alice, bob, carol]" and b: "room c = ''blue''"
    by (simp add: unfold_all login_def mounted_def)
  from connected_users_is_room_projection [OF u] obtain items where
    "connected_users c = Inr items" by blast
  moreover have "connected_users c = Inr [UserItem ''s1'' ''alice'', UserItem ''s3'' ''carol'']"
    by (simp add: connected_users_def u b alice_def bob_def carol_def)
  moreover have "connected_users (room_onClick c) = Inr [UserItem ''s2'' ''bob'']"
    by (simp add: connected_users_def room_onClick_def setRoom_def u b alice_def bob_def carol_def)
  ultimately show ?thesis using r u b by blast
qed

text \<open>
  A query that is rejected, or whose body does not parse or is \<^verbatim>\<open>null\<close>, logs the error
  and writes no cell; no settlement issues a request.
\<close>

lemma failed_query_keeps_list:
  "outcome = Rejected err \<or> outcome = Resolved status NotJson \<or> outcome = Resolved status JsonNull \<Longrightarrow>
   step (Fetch_settled outcome) c = Some c' \<Longrightarrow>
     onlineUsers c' = onlineUsers c \<and> length (console c') = Suc (length (console c))"
  by (auto simp: unfold_all split: if_splits)

lemma settlement_issues_no_request:
  "step (Fetch_settled outcome) c = Some c' \<Longrightarrow>
     requests c' = requests c \<and> in_flight c' = in_flight c - 1"
  by (cases outcome) (auto simp: unfold_all split: if_splits Body.splits option.splits)

text \<open>
  Claim C9 does not hold of the code for a response that is not a success. The guard
  \<^verbatim>\<open>if (response)\<close> is true of every response, so the branch that logs
  \<^verbatim>\<open>'error fetching the online users'\<close> is never taken and the status is never read. Alice
  is logged in and sees herself; a presence signal issues a query. When the server
  answers it with status 404 and the body \<^verbatim>\<open>{"onlineUsers": []}\<close>, the list is cleared, the
  view shows "No users yet!" and nothing is logged. When the server answers it with status
  500 and a JSON body without \<^verbatim>\<open>onlineUsers\<close>, the list cell is set to \<^verbatim>\<open>undefined\<close>, the
  render throws, the \<^verbatim>\<open>catch\<close> logs the \<^verbatim>\<open>TypeError\<close>, and the component is unmounted.
\<close>

theorem non_success_response_overwrites_list:
  "map_option onlineUsers
     (run (login @ [Fetch_settled (Resolved 200 (JsonData (Some [alice]))), Recv_newConnection])
        mounted) = Some (Some [alice])
   \<and> map_option onlineUsers
     (run (login @ [Fetch_settled (Resolved 200 (JsonData (Some [alice]))), Recv_newConnection,
                    Fetch_settled (Resolved 404 (JsonData (Some [])))])
        mounted) = Some (Some [])
   \<and> map_option connected_users
     (run (login @ [Fetch_settled (Resolved 200 (JsonData (Some [alice]))), Recv_newConnection,
                    Fetch_settled (Resolved 404 (JsonData (Some [])))])
        mounted) = Some (Inr [NoUsersYet])
   \<and> map_option console
     (run (login @ [Fetch_settled (Resolved 200 (JsonData (Some [alice]))), Recv_newConnection,
                    Fetch_settled (Resolved 404 (JsonData (Some [])))])
        mounted) =
     map_option console
     (run (login @ [Fetch_settled (Resolved 200 (JsonData (Some [alice]))), Recv_newConnection])
        mounted)
   \<and> map_option (onlineUsers \<circ> fetchOnlineUsers_settled (Resolved 500 (JsonData None)))
     (run (login @ [Fetch_settled (Resolved 200 (JsonData (Some [alice]))), Recv_newConnection])
        mounted) = Some None
   \<and> map_option (console \<circ> fetchOnlineUsers_settled (Resolved 500 (JsonData None)))
     (run (login @ [Fetch_settled (Resolved 200 (JsonData (Some [alice]))), Recv_newConnection])
        mounted) =
     Some [''you're logged in!'', ''watch out! a new challenger appears!'', ''TypeError'']
   \<and> run (login @ [Fetch_settled (Resolved 200 (JsonData (Some [alice]))), Recv_newConnection,
                  Fetch_settled (Resolved 500 (JsonData None))])
        mounted = None"
  by (simp add: unfold_all login_def mounted_def connected_users_def)

section \<open>The room\<close>

text \<open>
  Claim C7, as the code has it. The room is \<^verbatim>\<open>'blue'\<close> at the mount and is flipped between
  \<^verbatim>\<open>'blue'\<close> and \<^verbatim>\<open>'red'\<close> by each click on the Room button, so it is always one of the
  two. The button is never disabled: in every state the component reaches, also after
  the identity was submitted and after \<^verbatim>\<open>'loggedin'\<close>, a click flips the room. No other
  event changes the room.
\<close>

theorem room_is_blue_or_red_and_only_toggled:
  "run es mounted = Some c \<Longrightarrow>
     room c = (if even (length (filter (\<lambda>e. e = Room_onClick) es)) then ''blue'' else ''red'')
     \<and> step Room_onClick c = Some (c\<lparr>room := (if room c = ''blue'' then ''red'' else ''blue'')\<rparr>)
     \<and> (\<forall>e c'. e \<noteq> Room_onClick \<and> step e c = Some c' \<longrightarrow> room c' = room c)"
  using run_room [of es c] step_room [of _ c] by (auto simp: room_onClick_def setRoom_def)

theorem room_is_blue_or_red_and_only_toggled_witness:
  "\<exists>c. run (Room_onClick # login) mounted = Some c \<and> room c = ''red''
     \<and> step Room_onClick c = Some (c\<lparr>room := ''blue''\<rparr>)
     \<and> (\<exists>c'. step (Recv_message hello) c = Some c' \<and> room c' = ''red'')"
proof -
  obtain c where r: "run (Room_onClick # login) mounted = Some c"
    by (simp add: unfold_all login_def mounted_def)
  from room_is_blue_or_red_and_only_toggled [OF r]
  have red: "room c = ''red''"
    and click: "step Room_onClick c = Some (c\<lparr>room := (if room c = ''blue'' then ''red'' else ''blue'')\<rparr>)"
    and other: "\<And>e c'. e \<noteq> Room_onClick \<and> step e c = Some c' \<Longrightarrow> room c' = room c"
    by (simp_all add: login_def)
  have "step (Recv_message hello) c = Some (on_message hello c)" by simp
  with other [of "Recv_message hello" "on_message hello c"] red click r
  show ?thesis by auto
qed

text \<open>
  Claim C7 as it is written fails: Alice submits her identity for room \<^verbatim>\<open>'blue'\<close>, is
  confirmed, and then clicks the Room button; the room of the client is \<^verbatim>\<open>'red'\<close>, and
  the message she sends next goes out for room \<^verbatim>\<open>'red'\<close>.
\<close>

theorem room_changes_after_identity:
  "map_option room (run login mounted) = Some ''blue''
   \<and> map_option emitted (run login mounted) = Some [(''setUsername'', Identity ''alice'' ''blue'')]
   \<and> map_option room (run (login @ [Room_onClick]) mounted) = Some ''red''
   \<and> map_option emitted
       (run (login @ [Room_onClick, Message_onChange ''hi'', Message_onSubmit ''s1'' 2000]) mounted) =
     Some [(''setUsername'', Identity ''alice'' ''blue''),
           (''sendmessage'',
            Outgoing \<lparr>text' = ''hi'', sender = ''alice'', socketId = ''s1'', timestamp = 2000\<rparr>
              ''red'')]"
  by (simp add: unfold_all login_def mounted_def)

section \<open>No message before login\<close>

text \<open>
  Claim C10. \<^verbatim>\<open>handleMessageSubmit\<close> has no guard of its own; the gate is the message
  field, which is disabled while the logged-in flag is false, and the flag is true
  exactly when a \<^verbatim>\<open>'loggedin'\<close> event was received. So in every state the component
  reaches from its mount with the flag false, the message field is disabled, a submit of
  the message form cannot happen, and no \<^verbatim>\<open>'sendmessage'\<close> event has been emitted.
\<close>

theorem no_sendmessage_before_loggedin:
  "run es mounted = Some c \<Longrightarrow>
     loggedIn c = (Recv_loggedin \<in> set es)
     \<and> (\<not> loggedIn c \<longrightarrow> message_disabled c
           \<and> step (Message_onSubmit socket_id now) c = None
           \<and> ''sendmessage'' \<notin> fst ` set (emitted c))"
  using run_login [of es mounted c] run_sendmessage [of es c]
  by (auto simp: mounted_def message_disabled_def)

theorem no_sendmessage_before_loggedin_witness:
  "\<exists>c. run [Recv_connect, Username_onChange ''alice'', Username_onSubmit, Recv_newConnection,
            Recv_message hello] mounted = Some c
     \<and> \<not> loggedIn c \<and> message_disabled c
     \<and> step (Message_onSubmit ''s1'' 2000) c = None
     \<and> ''sendmessage'' \<notin> fst ` set (emitted c)"
proof -
  obtain c where r: "run [Recv_connect, Username_onChange ''alice'', Username_onSubmit,
      Recv_newConnection, Recv_message hello] mounted = Some c"
    by (simp add: unfold_all mounted_def)
  from no_sendmessage_before_loggedin [OF r, of "''s1''" 2000] r
  show ?thesis by auto
qed

end
